theory Spec2Isabelle
  imports Main
begin

section \<open>Python values used by app.py\<close>

text \<open>
  A Python \<open>str\<close> is a sequence of Unicode code points and \<open>len\<close> counts code points,
  so a string is a list of code points; \<open>ascii\<close> embeds an ASCII literal.
\<close>

type_synonym codepoint = nat
type_synonym pystr = "codepoint list"

definition ascii :: "string \<Rightarrow> pystr" where
  "ascii s = map of_char s"

text \<open>The characters \<open>str.strip()\<close> removes: those for which \<open>str.isspace\<close> holds.\<close>

definition isspace :: "codepoint \<Rightarrow> bool" where
  "isspace c =
     (c \<in> set [9, 10, 11, 12, 13, 28, 29, 30, 31, 32, 133, 160, 5760,
                8232, 8233, 8239, 8287, 12288]
      \<or> (8192 \<le> c \<and> c \<le> 8202))"

definition strip :: "pystr \<Rightarrow> pystr" where
  "strip s = rev (dropWhile isspace (rev (dropWhile isspace s)))"

text \<open>\<open>sep.join(parts)\<close>.\<close>

fun join :: "pystr \<Rightarrow> pystr list \<Rightarrow> pystr" where
  "join sep [] = []"
| "join sep [x] = x"
| "join sep (x # y # ys) = x @ sep @ join sep (y # ys)"

text \<open>
  Exceptions that reach the code: \<open>Raised\<close> is any exception a library call raises,
  the others are raised by the interpreter itself.
\<close>

datatype py_exception = Raised pystr | TypeError | AttributeError | KeyError | IndexError

text \<open>
  What the script does that is visible from outside: the Streamlit calls it makes,
  the entry into each stage of the ingestion pipeline, and the call of the chain.
\<close>

datatype stage = Extraction | Chunking | Indexing | Chain_construction

datatype event =
    Warning pystr
  | Error pystr
  | Success pystr
  | Write pystr
  | Typing
  | Typing_cleared
  | Call stage
  | Chain_call pystr

section \<open>get_pdf_text\<close>

text \<open>
  An uploaded file has a name; \<open>PdfReader(pdf)\<close> raises or gives the pages;
  \<open>page.extract_text()\<close> raises or returns \<open>None\<close> or a string.
\<close>

type_synonym page = "py_exception + pystr option"

record uploaded_file =
  name :: pystr
  reader :: "py_exception + page list"

text \<open>The inner loop over the pages, inside the \<open>try\<close>: \<open>file_text\<close> is the accumulator.\<close>

fun extract_pages :: "page list \<Rightarrow> pystr \<Rightarrow> py_exception + pystr" where
  "extract_pages [] file_text = Inr file_text"
| "extract_pages (Inl e # ps) file_text = Inl e"
| "extract_pages (Inr None # ps) file_text = extract_pages ps file_text"
| "extract_pages (Inr (Some extracted_text) # ps) file_text =
     extract_pages ps (if extracted_text \<noteq> [] then file_text @ extracted_text else file_text)"

definition read_pdf :: "uploaded_file \<Rightarrow> py_exception + pystr" where
  "read_pdf pdf = (case reader pdf of Inl e \<Rightarrow> Inl e | Inr pages \<Rightarrow> extract_pages pages [])"

record extraction =
  acc_text :: pystr
  unreadable_files :: "pystr list"
  empty_text_files :: "pystr list"

text \<open>The loop over the batch; the \<open>except\<close> branch is the \<open>Inl\<close> case.\<close>

fun pdf_loop :: "uploaded_file list \<Rightarrow> extraction \<Rightarrow> extraction" where
  "pdf_loop [] st = st"
| "pdf_loop (pdf # pdfs) st =
     pdf_loop pdfs
       (case read_pdf pdf of
          Inl e \<Rightarrow> st\<lparr>unreadable_files := unreadable_files st @ [name pdf]\<rparr>
        | Inr file_text \<Rightarrow>
            if strip file_text \<noteq> [] then st\<lparr>acc_text := acc_text st @ file_text\<rparr>
            else st\<lparr>empty_text_files := empty_text_files st @ [name pdf]\<rparr>)"

definition unreadable_warning :: "pystr list \<Rightarrow> pystr" where
  "unreadable_warning names =
     [9888, 65039] @ ascii '' The following PDFs could not be read due to corruption or format issues: ''
       @ join (ascii '', '') names"

definition empty_text_warning :: "pystr list \<Rightarrow> pystr" where
  "empty_text_warning names =
     [9888, 65039] @ ascii '' The following PDFs had no extractable text: ''
       @ join (ascii '', '') names"

definition get_pdf_text :: "uploaded_file list \<Rightarrow> event list \<times> pystr option" where
  "get_pdf_text pdf_docs =
     (let st = pdf_loop pdf_docs \<lparr>acc_text = [], unreadable_files = [], empty_text_files = []\<rparr>
      in if unreadable_files st \<noteq> [] then ([Warning (unreadable_warning (unreadable_files st))], None)
         else if empty_text_files st \<noteq> [] then ([Warning (empty_text_warning (empty_text_files st))], None)
         else ([], Some (acc_text st)))"

section \<open>get_text_chunks\<close>

text \<open>
  \<open>get_text_chunks\<close> hands the text to \<open>CharacterTextSplitter(separator="\n",
  chunk_size=1000, chunk_overlap=200, length_function=len).split_text\<close> of the
  langchain text-splitters library, which is not part of the repository. The definitions
  of this section follow that library's \<open>split_text\<close>, \<open>_split_text_with_regex\<close>,
  \<open>_merge_splits\<close> and \<open>_join_docs\<close>, with the constructor's defaults
  \<open>keep_separator=False\<close> and \<open>strip_whitespace=True\<close>:
  \<^item> the text is cut at every separator and the empty pieces are dropped;
  \<^item> the pieces are taken in order and collected in \<open>current_doc\<close>, \<open>total\<close> being the
    length of their join; when the next piece would take the join past \<open>chunk_size\<close>
    and \<open>current_doc\<close> is not empty, the join of \<open>current_doc\<close> is emitted and pieces are
    popped from its front until at most \<open>chunk_overlap\<close> is left and the next piece fits;
  \<^item> a join is stripped of surrounding whitespace and not emitted when nothing is left;
  \<^item> a piece is never cut: one that is longer than \<open>chunk_size\<close> becomes a chunk as it is.
\<close>

definition newline :: codepoint where
  "newline = 10"

definition separator :: pystr where
  "separator = [newline]"

definition chunk_size :: int where
  "chunk_size = 1000"

definition chunk_overlap :: int where
  "chunk_overlap = 200"

text \<open>
  The separator is the one character \<open>\n\<close>, so \<open>re.split(re.escape(separator), text)\<close>
  cuts at each occurrence of it: \<open>split_on c\<close> is \<open>str.split\<close> for a one-character
  separator.
\<close>

fun split_on :: "codepoint \<Rightarrow> pystr \<Rightarrow> pystr list" where
  "split_on c [] = [[]]"
| "split_on c (x # xs) =
     (if x = c then [] # split_on c xs
      else (case split_on c xs of [] \<Rightarrow> [[x]] | p # ps \<Rightarrow> (x # p) # ps))"

definition split_text_with_regex :: "pystr \<Rightarrow> pystr list" where
  "split_text_with_regex text = filter (\<lambda>s. s \<noteq> []) (split_on newline text)"

definition join_docs :: "pystr list \<Rightarrow> pystr \<Rightarrow> pystr option" where
  "join_docs ds sep = (let text = strip (join sep ds) in if text = [] then None else Some text)"

record merge_state =
  docs :: "pystr list"
  current_doc :: "pystr list"
  total :: int

definition separator_len :: int where
  "separator_len = int (length separator)"

text \<open>
  The \<open>while\<close> loop that pops pieces from the front of \<open>current_doc\<close>;
  \<open>current_doc[0]\<close> of an empty list raises \<open>IndexError\<close>.
\<close>

fun pop_while :: "int \<Rightarrow> pystr list \<Rightarrow> int \<Rightarrow> py_exception + pystr list \<times> int" where
  "pop_while len [] tot =
     (if tot > chunk_overlap \<or> (tot + len > chunk_size \<and> tot > 0)
      then Inl IndexError else Inr ([], tot))"
| "pop_while len (d # rest) tot =
     (if tot > chunk_overlap \<or> (tot + len + separator_len > chunk_size \<and> tot > 0)
      then pop_while len rest (tot - (int (length d) + (if length (d # rest) > 1 then separator_len else 0)))
      else Inr (d # rest, tot))"

text \<open>The body of the \<open>for\<close> loop before the piece is appended.\<close>

definition flush :: "int \<Rightarrow> merge_state \<Rightarrow> py_exception + merge_state" where
  "flush len st =
     (if total st + len + (if length (current_doc st) > 0 then separator_len else 0) > chunk_size
      then
        (if length (current_doc st) > 0
         then
           (let docs' = (case join_docs (current_doc st) separator of
                           None \<Rightarrow> docs st | Some doc \<Rightarrow> docs st @ [doc])
            in case pop_while len (current_doc st) (total st) of
                 Inl e \<Rightarrow> Inl e
               | Inr (cd, tot) \<Rightarrow> Inr (st\<lparr>docs := docs', current_doc := cd, total := tot\<rparr>))
         else Inr st)
      else Inr st)"

fun merge_loop :: "pystr list \<Rightarrow> merge_state \<Rightarrow> py_exception + merge_state" where
  "merge_loop [] st = Inr st"
| "merge_loop (d # ds) st =
     (case flush (int (length d)) st of
        Inl e \<Rightarrow> Inl e
      | Inr st1 \<Rightarrow>
          merge_loop ds
            (st1\<lparr>current_doc := current_doc st1 @ [d],
                 total := total st1 + int (length d)
                          + (if length (current_doc st1 @ [d]) > 1 then separator_len else 0)\<rparr>))"

definition merge_splits :: "pystr list \<Rightarrow> py_exception + pystr list" where
  "merge_splits splits =
     (case merge_loop splits \<lparr>docs = [], current_doc = [], total = 0\<rparr> of
        Inl e \<Rightarrow> Inl e
      | Inr st \<Rightarrow>
          Inr (case join_docs (current_doc st) separator of
                 None \<Rightarrow> docs st | Some doc \<Rightarrow> docs st @ [doc]))"

definition split_text :: "pystr \<Rightarrow> py_exception + pystr list" where
  "split_text text = merge_splits (split_text_with_regex text)"

definition get_text_chunks :: "pystr \<Rightarrow> py_exception + pystr list" where
  "get_text_chunks text = (if text = [] then Inr [] else split_text text)"

section \<open>The libraries and the environment\<close>

text \<open>
  The embedding model, the vector index, the chat model and the retrieval chain are
  library objects, and the HTML templates come from the module \<open>htmlTemplates\<close>; the
  code is verified for every behaviour of theirs. A call of a library constructor raises
  or returns an object; an object has a truth value, which \<open>if not vectorstore\<close> and
  \<open>if not conversation\<close> test. Calling the chain raises or returns the response
  dictionary, and leaves the chain (which holds its own memory) in a new state.
  \<open>render role msg\<close> is \<open>user_template.replace("{{MSG}}", msg)\<close> or
  \<open>bot_template.replace("{{MSG}}", msg)\<close>.
\<close>

datatype memory = ConversationBufferMemory pystr bool

datatype 'vs retriever = Retriever 'vs

datatype message_template = SystemMessagePromptTemplate pystr | HumanMessagePromptTemplate pystr

datatype role = User | Bot

record ('emb, 'vs, 'llm, 'chain) services =
  getenv :: "pystr \<Rightarrow> pystr option"
  hf_embeddings :: "pystr \<Rightarrow> py_exception + 'emb"
  faiss_from_texts :: "pystr list \<Rightarrow> 'emb \<Rightarrow> py_exception + 'vs"
  vs_truthy :: "'vs \<Rightarrow> bool"
  chat_groq :: "pystr \<Rightarrow> py_exception + 'llm"
  from_llm :: "'llm \<Rightarrow> 'vs retriever \<Rightarrow> memory \<Rightarrow> py_exception + 'chain"
  chain_truthy :: "'chain \<Rightarrow> bool"
  invoke :: "'chain \<Rightarrow> (pystr \<rightharpoonup> pystr) \<Rightarrow> (py_exception + (pystr \<rightharpoonup> pystr)) \<times> 'chain"
  render :: "role \<Rightarrow> pystr \<Rightarrow> pystr"

text \<open>The truth value of a variable that holds \<open>None\<close> or an object.\<close>

definition truthy :: "('a \<Rightarrow> bool) \<Rightarrow> 'a option \<Rightarrow> bool" where
  "truthy t v = (case v of None \<Rightarrow> False | Some x \<Rightarrow> t x)"

section \<open>get_vectorstore\<close>

definition get_vectorstore ::
  "('emb, 'vs, 'llm, 'chain) services \<Rightarrow> pystr list \<Rightarrow> py_exception + 'vs option" where
  "get_vectorstore sv text_chunks =
     (if text_chunks = [] then Inr None
      else case hf_embeddings sv (ascii ''sentence-transformers/all-MiniLM-L6-v2'') of
             Inl e \<Rightarrow> Inl e
           | Inr embeddings \<Rightarrow>
               (case faiss_from_texts sv text_chunks embeddings of
                  Inl e \<Rightarrow> Inl e
                | Inr vectorstore \<Rightarrow> Inr (Some vectorstore)))"

section \<open>get_conversation_chain\<close>

definition system_prompt :: pystr where
  "system_prompt =
     ascii ''You are a helpful AI assistant for '' @ [39] @ ascii ''TalkDocs'' @ [39] @ ascii ''.'' @ [10]
     @ ascii ''    Always answer based only on the provided documents.'' @ [10]
     @ ascii ''    If the answer is not found in the documents, say '' @ [34]
     @ ascii ''I couldn'' @ [39] @ ascii ''t find that in your files.'' @ [34] @ [10]
     @ ascii ''    Provide clear, concise, and well-formatted responses.'' @ [10]
     @ ascii ''    Also you are able to compare document'' @ [39]
     @ ascii ''s contents and judge which one is better or best.'' @ [10]
     @ ascii ''    ''"

definition missing_vectorstore_error :: pystr where
  "missing_vectorstore_error =
     [10060] @ ascii '' Cannot create conversation chain: vectorstore is missing or invalid.''"

text \<open>
  The local \<open>prompt\<close> is built from \<open>system_prompt\<close> as in the source; the call of
  \<open>ConversationalRetrievalChain.from_llm\<close> receives \<open>llm\<close>, \<open>retriever\<close> and
  \<open>memory\<close>.
\<close>

definition get_conversation_chain ::
  "('emb, 'vs, 'llm, 'chain) services \<Rightarrow> 'vs option \<Rightarrow> event list \<times> (py_exception + 'chain option)" where
  "get_conversation_chain sv vectorstore =
     (case vectorstore of
        None \<Rightarrow> ([Error missing_vectorstore_error], Inr None)
      | Some vs \<Rightarrow>
          if \<not> vs_truthy sv vs then ([Error missing_vectorstore_error], Inr None)
          else
            (case chat_groq sv (ascii ''llama3-8b-8192'') of
               Inl e \<Rightarrow> ([], Inl e)
             | Inr llm \<Rightarrow>
                 (let prompt = [SystemMessagePromptTemplate system_prompt,
                                HumanMessagePromptTemplate (ascii ''{question}'')];
                      memory = ConversationBufferMemory (ascii ''chat_history'') True
                  in case from_llm sv llm (Retriever vs) memory of
                       Inl e \<Rightarrow> ([], Inl e)
                     | Inr conversation_chain \<Rightarrow> ([], Inr (Some conversation_chain)))))"

section \<open>Session state and handle_userinput\<close>

text \<open>
  \<open>st.session_state\<close> has the keys \<open>conversation\<close> and \<open>chat_history\<close>; a key is
  absent (\<open>None\<close>) until \<open>main\<close> sets it, and \<open>conversation\<close> holds Python's \<open>None\<close>
  (\<open>Some None\<close>) or a chain. A run of a function gives the events it produced, the
  exception that ended it, if any, and the session state it leaves.
\<close>

record 'chain session_state =
  conversation :: "'chain option option"
  chat_history :: "(role \<times> pystr) list option"

type_synonym 'chain run = "event list \<times> py_exception option \<times> 'chain session_state"

definition history :: "'chain session_state \<Rightarrow> (role \<times> pystr) list" where
  "history s = (case chat_history s of None \<Rightarrow> [] | Some h \<Rightarrow> h)"

definition handle_userinput ::
  "('emb, 'vs, 'llm, 'chain) services \<Rightarrow> pystr \<Rightarrow> 'chain session_state \<Rightarrow> 'chain run" where
  "handle_userinput sv user_question s =
     (let h = (case chat_history s of None \<Rightarrow> [] | Some h \<Rightarrow> h) @ [(User, user_question)];
          s1 = s\<lparr>chat_history := Some h\<rparr>;
          shown = map (\<lambda>(role, msg). Write (render sv role msg)) h @ [Typing]
      in case conversation s1 of
           None \<Rightarrow> (shown, Some AttributeError, s1)
         | Some None \<Rightarrow> (shown, Some TypeError, s1)
         | Some (Some chain) \<Rightarrow>
             (case invoke sv chain [ascii ''question'' \<mapsto> user_question] of
                (Inl e, chain') \<Rightarrow>
                  (shown @ [Chain_call user_question], Some e, s1\<lparr>conversation := Some (Some chain')\<rparr>)
              | (Inr response, chain') \<Rightarrow>
                  (case response (ascii ''answer'') of
                     None \<Rightarrow>
                       (shown @ [Chain_call user_question], Some KeyError,
                        s1\<lparr>conversation := Some (Some chain')\<rparr>)
                   | Some bot_reply \<Rightarrow>
                       (shown @ [Chain_call user_question, Typing_cleared,
                                 Write (render sv Bot bot_reply)],
                        None,
                        s1\<lparr>conversation := Some (Some chain'),
                           chat_history := Some (h @ [(Bot, bot_reply)])\<rparr>))))"

section \<open>main\<close>

definition no_pdf_error :: pystr where
  "no_pdf_error =
     [10060] @ ascii '' No PDF uploaded. Please upload at least one PDF before processing.''"

fun stage_error :: "stage \<Rightarrow> pystr" where
  "stage_error Extraction = [10060] @ ascii '' PDF processing stopped. No usable text found.''"
| "stage_error Chunking =
     [10060] @ ascii '' No text chunks could be generated. Please try a different document.''"
| "stage_error Indexing = [10060] @ ascii '' Vectorstore creation failed.''"
| "stage_error Chain_construction = [10060] @ ascii '' Failed to initialize conversation chain.''"

definition success_message :: pystr where
  "success_message =
     [9989] @ ascii '' PDF(s) processed successfully! You can now start chatting.''"

text \<open>The body of \<open>if st.button("Process")\<close>.\<close>

definition process ::
  "('emb, 'vs, 'llm, 'chain) services \<Rightarrow> uploaded_file list \<Rightarrow> 'chain session_state \<Rightarrow> 'chain run" where
  "process sv pdf_docs s =
     (if pdf_docs = [] then ([Error no_pdf_error], None, s)
      else
        case get_pdf_text pdf_docs of (warnings, raw_text) \<Rightarrow>
        (case (case raw_text of None \<Rightarrow> None | Some t \<Rightarrow> if t = [] then None else Some t) of
           None \<Rightarrow> (Call Extraction # warnings @ [Error (stage_error Extraction)], None, s)
         | Some raw \<Rightarrow>
        (case get_text_chunks raw of
           Inl e \<Rightarrow> (Call Extraction # warnings @ [Call Chunking], Some e, s)
         | Inr text_chunks \<Rightarrow>
        if text_chunks = []
        then (Call Extraction # warnings @ [Call Chunking, Error (stage_error Chunking)], None, s)
        else
        (case get_vectorstore sv text_chunks of
           Inl e \<Rightarrow> (Call Extraction # warnings @ [Call Chunking, Call Indexing], Some e, s)
         | Inr vectorstore \<Rightarrow>
        if \<not> truthy (vs_truthy sv) vectorstore
        then (Call Extraction # warnings
                @ [Call Chunking, Call Indexing, Error (stage_error Indexing)], None, s)
        else
        (case get_conversation_chain sv vectorstore of
           (errors, Inl e) \<Rightarrow>
             (Call Extraction # warnings
                @ [Call Chunking, Call Indexing, Call Chain_construction] @ errors, Some e, s)
         | (errors, Inr new_conversation) \<Rightarrow>
        if \<not> truthy (chain_truthy sv) new_conversation
        then (Call Extraction # warnings
                @ [Call Chunking, Call Indexing, Call Chain_construction] @ errors
                @ [Error (stage_error Chain_construction)], None, s)
        else (Call Extraction # warnings
                @ [Call Chunking, Call Indexing, Call Chain_construction] @ errors
                @ [Success success_message],
              None, s\<lparr>conversation := Some new_conversation\<rparr>))))))"

text \<open>
  One run of the script: the content of the question box, the uploaded files and
  whether the Process button was pressed. \<open>os.environ[k] = os.getenv(k)\<close> raises
  \<open>TypeError\<close> when the variable is not set.
\<close>

record ui_input =
  input_question :: pystr
  input_pdfs :: "uploaded_file list"
  input_process :: bool

definition langsmith_keys :: "pystr list" where
  "langsmith_keys = [ascii ''LANGSMITH_API_KEY'', ascii ''LANGSMITH_TRACING_v2'',
                     ascii ''LANGSMITH_PROJECT'', ascii ''LANGSMITH_ENDPOINT'']"

definition main ::
  "('emb, 'vs, 'llm, 'chain) services \<Rightarrow> ui_input \<Rightarrow> 'chain session_state \<Rightarrow> 'chain run" where
  "main sv inp s0 =
     (if \<exists>k \<in> set langsmith_keys. getenv sv k = None then ([], Some TypeError, s0)
      else
        let s1 = (if conversation s0 = None then s0\<lparr>conversation := Some None\<rparr> else s0);
            s2 = (if chat_history s1 = None then s1\<lparr>chat_history := Some []\<rparr> else s1)
        in case (if input_question inp \<noteq> [] then handle_userinput sv (input_question inp) s2
                 else ([], None, s2)) of
             (shown, Some e, s3) \<Rightarrow> (shown, Some e, s3)
           | (shown, None, s3) \<Rightarrow>
               if input_process inp
               then (case process sv (input_pdfs inp) s3 of
                       (shown', x, s4) \<Rightarrow> (shown @ shown', x, s4))
               else (shown, None, s3))"

text \<open>A session is a sequence of runs over the same session state.\<close>

fun session ::
  "('emb, 'vs, 'llm, 'chain) services \<Rightarrow> ui_input list \<Rightarrow> 'chain session_state \<Rightarrow> 'chain session_state" where
  "session sv [] s = s"
| "session sv (inp # inps) s = session sv inps (snd (snd (main sv inp s)))"

definition startup :: "'chain session_state" where
  "startup = \<lparr>conversation = None, chat_history = None\<rparr>"

definition chain_of :: "'chain session_state \<Rightarrow> 'chain option" where
  "chain_of s = (case conversation s of None \<Rightarrow> None | Some c \<Rightarrow> c)"

section \<open>The vocabulary of the specification\<close>

subsection \<open>Unreadable, empty-text and usable documents\<close>

definition unreadable :: "uploaded_file \<Rightarrow> bool" where
  "unreadable pdf = (case reader pdf of Inl e \<Rightarrow> True | Inr pages \<Rightarrow> \<exists>p \<in> set pages. isl p)"

fun page_text :: "page \<Rightarrow> pystr" where
  "page_text (Inr (Some t)) = t"
| "page_text _ = []"

definition document_text :: "uploaded_file \<Rightarrow> pystr" where
  "document_text pdf = (case reader pdf of Inl e \<Rightarrow> [] | Inr pages \<Rightarrow> concat (map page_text pages))"

definition empty_text :: "uploaded_file \<Rightarrow> bool" where
  "empty_text pdf = (\<not> unreadable pdf \<and> list_all isspace (document_text pdf))"

definition usable :: "uploaded_file \<Rightarrow> bool" where
  "usable pdf = (\<not> unreadable pdf \<and> \<not> list_all isspace (document_text pdf))"

subsection \<open>Texts with an empty line\<close>

text \<open>Two line breaks next to each other.\<close>

fun blank_line :: "pystr \<Rightarrow> bool" where
  "blank_line (a # b # xs) = ((a = newline \<and> b = newline) \<or> blank_line (b # xs))"
| "blank_line _ = False"

subsection \<open>The ingestion pipeline\<close>

text \<open>
  The four stages in sequence: the chain that was built, or the stage that returned
  nothing usable, or the stage that raised.
\<close>

datatype 'chain outcome = Built 'chain | Failed stage | Aborted stage py_exception

definition pipeline ::
  "('emb, 'vs, 'llm, 'chain) services \<Rightarrow> uploaded_file list \<Rightarrow> 'chain outcome" where
  "pipeline sv batch =
     (case snd (get_pdf_text batch) of
        None \<Rightarrow> Failed Extraction
      | Some raw \<Rightarrow>
          if raw = [] then Failed Extraction
          else case get_text_chunks raw of
            Inl e \<Rightarrow> Aborted Chunking e
          | Inr chunks \<Rightarrow>
              if chunks = [] then Failed Chunking
              else case get_vectorstore sv chunks of
                Inl e \<Rightarrow> Aborted Indexing e
              | Inr None \<Rightarrow> Failed Indexing
              | Inr (Some vs) \<Rightarrow>
                  if \<not> vs_truthy sv vs then Failed Indexing
                  else case snd (get_conversation_chain sv (Some vs)) of
                    Inl e \<Rightarrow> Aborted Chain_construction e
                  | Inr None \<Rightarrow> Failed Chain_construction
                  | Inr (Some chain) \<Rightarrow>
                      if chain_truthy sv chain then Built chain else Failed Chain_construction)"


fun calls :: "event list \<Rightarrow> stage list" where
  "calls [] = []"
| "calls (Call k # evs) = k # calls evs"
| "calls (ev # evs) = calls evs"

definition successful_process :: "('emb, 'vs, 'llm, 'chain) services \<Rightarrow> ui_input \<Rightarrow> bool" where
  "successful_process sv inp =
     (input_process inp \<and> input_pdfs inp \<noteq> [] \<and>
      (case pipeline sv (input_pdfs inp) of Built chain \<Rightarrow> True | _ \<Rightarrow> False))"

text \<open>
  A run that reaches the Process branch with a chain still missing and completes the four
  stages: the environment variables are set, the question box is empty (a question asked
  without a chain ends the run in \<open>handle_userinput\<close>), and the Process action
  succeeds.
\<close>

definition environment_set :: "('emb, 'vs, 'llm, 'chain) services \<Rightarrow> bool" where
  "environment_set sv = list_all (\<lambda>k. getenv sv k \<noteq> None) langsmith_keys"

definition assigning_run :: "('emb, 'vs, 'llm, 'chain) services \<Rightarrow> ui_input \<Rightarrow> bool" where
  "assigning_run sv inp =
     (environment_set sv \<and> input_question inp = [] \<and> successful_process sv inp)"

section \<open>Sample inputs\<close>

definition corrupted_pdf :: uploaded_file where
  "corrupted_pdf = \<lparr>name = ascii ''broken.pdf'', reader = Inl (Raised (ascii ''EOF marker not found''))\<rparr>"

definition scanned_pdf :: uploaded_file where
  "scanned_pdf = \<lparr>name = ascii ''scan.pdf'', reader = Inr [Inr (Some (ascii ''  '')), Inr None]\<rparr>"

definition locked_pdf :: uploaded_file where
  "locked_pdf =
     \<lparr>name = ascii ''locked.pdf'',
      reader = Inr [Inr (Some (ascii ''Page 1'')), Inl (Raised (ascii ''file has not been decrypted''))]\<rparr>"

definition blank_pdf :: uploaded_file where
  "blank_pdf = \<lparr>name = ascii ''blank.pdf'', reader = Inr []\<rparr>"

definition invoice_pdf :: uploaded_file where
  "invoice_pdf = \<lparr>name = ascii ''invoice.pdf'', reader = Inr [Inr (Some (ascii ''Invoice Total: $42.00''))]\<rparr>"

definition memo_pdf :: uploaded_file where
  "memo_pdf = \<lparr>name = ascii ''memo.pdf'',
     reader = Inr [Inr (Some (ascii '' Memo'')), Inr (Some []), Inr None, Inr (Some (ascii ''p2''))]\<rparr>"

definition demo_services :: "(unit, pystr list, pystr, pystr list \<times> nat) services" where
  "demo_services =
     \<lparr>getenv = (\<lambda>k. Some (ascii ''set'')),
      hf_embeddings = (\<lambda>model_name. Inr ()),
      faiss_from_texts = (\<lambda>texts embedding. Inr texts),
      vs_truthy = (\<lambda>vs. True),
      chat_groq = (\<lambda>model_name. Inr model_name),
      from_llm = (\<lambda>llm r memory. case r of Retriever vs \<Rightarrow> Inr (vs, 0)),
      chain_truthy = (\<lambda>chain. True),
      invoke = (\<lambda>(chunks, turns) inputs.
                  if inputs (ascii ''question'') = Some (ascii ''boom'')
                  then (Inl (Raised (ascii ''rate limit'')), (chunks, turns))
                  else (Inr [ascii ''answer'' \<mapsto> ascii ''$42.00''], (chunks, Suc turns))),
      render = (\<lambda>role msg. msg)\<rparr>"

definition ask_hi :: ui_input where
  "ask_hi = \<lparr>input_question = ascii ''hi'', input_pdfs = [], input_process = False\<rparr>"

definition upload_corrupted :: ui_input where
  "upload_corrupted =
     \<lparr>input_question = [], input_pdfs = [invoice_pdf, corrupted_pdf], input_process = True\<rparr>"

definition upload_nothing :: ui_input where
  "upload_nothing = \<lparr>input_question = [], input_pdfs = [], input_process = True\<rparr>"

definition upload_invoice :: ui_input where
  "upload_invoice = \<lparr>input_question = [], input_pdfs = [invoice_pdf], input_process = True\<rparr>"




definition unset_services :: "(unit, pystr list, pystr, pystr list \<times> nat) services" where
  "unset_services = demo_services\<lparr>getenv := (\<lambda>k. None)\<rparr>"

definition ask_and_upload :: ui_input where
  "ask_and_upload =
     \<lparr>input_question = ascii ''hi'', input_pdfs = [invoice_pdf], input_process = True\<rparr>"

definition chatting :: "(pystr list \<times> nat) session_state" where
  "chatting =
     \<lparr>conversation = Some (Some ([ascii ''Invoice Total: $42.00''], 0)),
      chat_history = Some [(User, ascii ''hi'')]\<rparr>"

definition idle :: "(pystr list \<times> nat) session_state" where
  "idle = \<lparr>conversation = Some None, chat_history = Some []\<rparr>"

section \<open>Properties of get_pdf_text\<close>

lemma strip_empty_iff: "strip s = [] \<longleftrightarrow> list_all isspace s"
proof -
  define t where "t = dropWhile isspace s"
  have "t = []" if all: "\<forall>x \<in> set t. isspace x"
  proof (rule ccontr)
    assume ne: "t \<noteq> []"
    then have "\<not> isspace (hd t)"
      unfolding t_def by (rule hd_dropWhile)
    moreover from ne have "hd t \<in> set t"
      by (rule hd_in_set)
    ultimately show False
      using all by blast
  qed
  moreover have "strip s = [] \<longleftrightarrow> (\<forall>x \<in> set t. isspace x)"
    unfolding strip_def t_def [symmetric] by (simp add: dropWhile_eq_Nil_conv)
  ultimately have "strip s = [] \<longleftrightarrow> t = []"
    by fastforce
  then show ?thesis
    unfolding t_def by (simp add: dropWhile_eq_Nil_conv list_all_iff)
qed

lemma extract_pages_readable:
  "\<forall>p \<in> set ps. \<not> isl p \<Longrightarrow> extract_pages ps acc = Inr (acc @ concat (map page_text ps))"
  by (induction ps acc rule: extract_pages.induct) auto

lemma extract_pages_raises:
  "\<exists>p \<in> set ps. isl p \<Longrightarrow> isl (extract_pages ps acc)"
  by (induction ps acc rule: extract_pages.induct) auto

lemma read_pdf_unreadable: "unreadable pdf \<Longrightarrow> isl (read_pdf pdf)"
  by (auto simp: unreadable_def read_pdf_def extract_pages_raises split: sum.splits)

lemma read_pdf_readable: "\<not> unreadable pdf \<Longrightarrow> read_pdf pdf = Inr (document_text pdf)"
  by (auto simp: unreadable_def read_pdf_def document_text_def extract_pages_readable
      split: sum.splits)

lemma pdf_loop_result:
  "pdf_loop pdfs st =
     \<lparr>acc_text = acc_text st @ concat (map document_text (filter usable pdfs)),
      unreadable_files = unreadable_files st @ map name (filter unreadable pdfs),
      empty_text_files = empty_text_files st @ map name (filter empty_text pdfs)\<rparr>"
proof (induction pdfs arbitrary: st)
  case Nil
  show ?case by simp
next
  case (Cons pdf pdfs)
  show ?case
  proof (cases "unreadable pdf")
    case True
    then obtain e where "read_pdf pdf = Inl e"
      using read_pdf_unreadable [of pdf] by (cases "read_pdf pdf") auto
    with True show ?thesis
      by (simp add: Cons.IH usable_def empty_text_def)
  next
    case False
    then show ?thesis
      by (simp add: Cons.IH read_pdf_readable usable_def empty_text_def strip_empty_iff)
  qed
qed

lemma get_pdf_text_result:
  "get_pdf_text pdfs =
     (if filter unreadable pdfs \<noteq> []
      then ([Warning (unreadable_warning (map name (filter unreadable pdfs)))], None)
      else if filter empty_text pdfs \<noteq> []
      then ([Warning (empty_text_warning (map name (filter empty_text pdfs)))], None)
      else ([], Some (concat (map document_text (filter usable pdfs)))))"
  by (simp add: get_pdf_text_def pdf_loop_result Let_def)

text \<open>
  Claim C1. A batch with at least one unreadable document yields no text and one
  warning: the fixed sentence followed by the names of exactly the unreadable documents,
  in input order, separated by a comma and a space.
\<close>

theorem get_pdf_text_unreadable:
  assumes "\<exists>pdf \<in> set pdf_docs. unreadable pdf"
  shows "get_pdf_text pdf_docs =
           ([Warning ([9888, 65039]
               @ ascii '' The following PDFs could not be read due to corruption or format issues: ''
               @ join (ascii '', '') (map name (filter unreadable pdf_docs)))],
            None)"
proof -
  from assms have "filter unreadable pdf_docs \<noteq> []"
    by (simp add: filter_empty_conv)
  then show ?thesis
    by (simp add: get_pdf_text_result unreadable_warning_def)
qed

theorem get_pdf_text_unreadable_witness:
  "unreadable corrupted_pdf \<and> unreadable locked_pdf \<and> empty_text scanned_pdf \<and>
   usable invoice_pdf \<and>
   get_pdf_text [scanned_pdf, corrupted_pdf, invoice_pdf, locked_pdf] =
     ([Warning ([9888, 65039]
         @ ascii '' The following PDFs could not be read due to corruption or format issues: broken.pdf, locked.pdf'')],
      None)"
  using get_pdf_text_unreadable [of "[scanned_pdf, corrupted_pdf, invoice_pdf, locked_pdf]"]
  by (simp add: unreadable_def empty_text_def usable_def document_text_def isspace_def ascii_def
      corrupted_pdf_def scanned_pdf_def invoice_pdf_def locked_pdf_def)

text \<open>
  Claim C2. A batch with no unreadable document and at least one document without any
  non-whitespace text yields no text and one warning: the fixed sentence followed by the
  names of exactly the empty-text documents, in input order, separated by a comma and a
  space.
\<close>

theorem get_pdf_text_empty_text:
  assumes "\<forall>pdf \<in> set pdf_docs. \<not> unreadable pdf"
    and "\<exists>pdf \<in> set pdf_docs. empty_text pdf"
  shows "get_pdf_text pdf_docs =
           ([Warning ([9888, 65039]
               @ ascii '' The following PDFs had no extractable text: ''
               @ join (ascii '', '') (map name (filter empty_text pdf_docs)))],
            None)"
proof -
  from assms(1) have "filter unreadable pdf_docs = []"
    by (simp add: filter_empty_conv)
  moreover from assms(2) have "filter empty_text pdf_docs \<noteq> []"
    by (simp add: filter_empty_conv)
  ultimately show ?thesis
    by (simp add: get_pdf_text_result empty_text_warning_def)
qed

theorem get_pdf_text_empty_text_witness:
  "\<not> unreadable scanned_pdf \<and> \<not> unreadable invoice_pdf \<and> \<not> unreadable blank_pdf \<and>
   empty_text scanned_pdf \<and> empty_text blank_pdf \<and> \<not> empty_text invoice_pdf \<and>
   get_pdf_text [scanned_pdf, invoice_pdf, blank_pdf] =
     ([Warning ([9888, 65039]
         @ ascii '' The following PDFs had no extractable text: scan.pdf, blank.pdf'')],
      None)"
  using get_pdf_text_empty_text [of "[scanned_pdf, invoice_pdf, blank_pdf]"]
  by (simp add: unreadable_def empty_text_def document_text_def isspace_def ascii_def
      scanned_pdf_def invoice_pdf_def blank_pdf_def)

text \<open>
  Claim C3. When every document of the batch is readable and has some non-whitespace
  text, the result is the texts of the documents, concatenated in input order with
  nothing between them, and no warning is issued.
\<close>

theorem get_pdf_text_success:
  assumes "\<forall>pdf \<in> set pdf_docs. usable pdf"
  shows "get_pdf_text pdf_docs = ([], Some (concat (map document_text pdf_docs)))"
proof -
  from assms have "filter usable pdf_docs = pdf_docs"
    by (simp add: filter_id_conv)
  moreover from assms have "filter unreadable pdf_docs = []" "filter empty_text pdf_docs = []"
    by (auto simp: filter_empty_conv usable_def empty_text_def)
  ultimately show ?thesis
    by (simp add: get_pdf_text_result)
qed

theorem get_pdf_text_success_witness:
  "usable invoice_pdf \<and> usable memo_pdf \<and>
   get_pdf_text [invoice_pdf, memo_pdf] =
     ([], Some (ascii ''Invoice Total: $42.00'' @ ascii '' Memo'' @ ascii ''p2''))"
  using get_pdf_text_success [of "[invoice_pdf, memo_pdf]"]
  by (simp add: usable_def unreadable_def document_text_def isspace_def ascii_def
      memo_pdf_def invoice_pdf_def)

section \<open>Properties of get_text_chunks\<close>

lemma split_on_not_Nil: "split_on c xs \<noteq> []"
  by (induction xs) (auto split: list.splits)

lemma split_on_absent: "c \<notin> set xs \<Longrightarrow> split_on c xs = [xs]"
  by (induction xs) auto

lemma join_split_on: "join [c] (split_on c xs) = xs"
proof (induction xs)
  case Nil
  show ?case by simp
next
  case (Cons x xs)
  obtain p ps where ps: "split_on c xs = p # ps"
    using split_on_not_Nil [of c xs] by (cases "split_on c xs") auto
  with Cons show ?case
    by (cases ps) auto
qed

lemma length_join:
  "int (length (join sep xs)) =
     (\<Sum>x\<leftarrow>xs. int (length x)) + int (length sep) * (if xs = [] then 0 else int (length xs) - 1)"
  by (induction sep xs rule: join.induct) (auto simp: algebra_simps)

lemma length_join_filter: "length (join sep (filter P xs)) \<le> length (join sep xs)"
proof -
  have "(\<Sum>x\<leftarrow>filter P xs. int (length x)) \<le> (\<Sum>x\<leftarrow>xs. int (length x))"
    by (induction xs) auto
  moreover have "(if filter P xs = [] then 0 else int (length (filter P xs)) - 1)
      \<le> (if xs = [] then 0 else int (length xs) - 1)"
    using length_filter_le [of P xs] by (cases xs) (auto split: if_splits)
  then have "int (length sep) * (if filter P xs = [] then 0 else int (length (filter P xs)) - 1)
      \<le> int (length sep) * (if xs = [] then 0 else int (length xs) - 1)"
    by (intro mult_left_mono) auto
  ultimately have "int (length (join sep (filter P xs))) \<le> int (length (join sep xs))"
    unfolding length_join by linarith
  then show ?thesis by simp
qed

lemma length_join_snoc:
  "int (length (join sep (xs @ [d]))) =
     int (length (join sep xs)) + int (length d) + (if xs = [] then 0 else int (length sep))"
  unfolding length_join by (auto simp: algebra_simps)

lemma length_join_append_le: "length (join sep xs) \<le> length (join sep (xs @ ys))"
proof -
  have nonneg: "0 \<le> (\<Sum>x\<leftarrow>ys. int (length x))"
    by (induction ys) auto
  show ?thesis
  proof (cases "xs = []")
    case True
    then show ?thesis by simp
  next
    case False
    have "int (length sep) * (int (length xs) - 1)
            \<le> int (length sep) * (int (length xs) + int (length ys) - 1)"
      by (intro mult_left_mono) auto
    with False nonneg have "int (length (join sep xs)) \<le> int (length (join sep (xs @ ys)))"
      unfolding length_join by simp
    then show ?thesis by simp
  qed
qed

lemma flush_fits:
  assumes "total st = int (length (join separator (current_doc st)))"
    and "int (length (join separator (current_doc st @ [d]))) \<le> chunk_size"
  shows "flush (int (length d)) st = Inr st"
  using assms unfolding flush_def length_join_snoc separator_len_def by auto

lemma merge_loop_fits:
  assumes "total st = int (length (join separator (current_doc st)))"
    and "int (length (join separator (current_doc st @ ds))) \<le> chunk_size"
  shows "merge_loop ds st =
           Inr (st\<lparr>current_doc := current_doc st @ ds,
                   total := int (length (join separator (current_doc st @ ds)))\<rparr>)"
  using assms
proof (induction ds arbitrary: st)
  case Nil
  then show ?case by simp
next
  case (Cons d ds)
  let ?st' = "st\<lparr>current_doc := current_doc st @ [d],
                  total := total st + int (length d)
                    + (if length (current_doc st @ [d]) > 1 then separator_len else 0)\<rparr>"
  have "length (join separator (current_doc st @ [d]))
          \<le> length (join separator ((current_doc st @ [d]) @ ds))"
    by (rule length_join_append_le)
  with Cons.prems(2) have fits: "int (length (join separator (current_doc st @ [d]))) \<le> chunk_size"
    by simp
  have fl: "flush (int (length d)) st = Inr st"
    using Cons.prems(1) fits by (rule flush_fits)
  have tot: "total ?st' = int (length (join separator (current_doc ?st')))"
    using Cons.prems(1) by (auto simp: length_join_snoc separator_len_def)
  have "merge_loop ds ?st' =
          Inr (?st'\<lparr>current_doc := current_doc ?st' @ ds,
                    total := int (length (join separator (current_doc ?st' @ ds)))\<rparr>)"
    using tot Cons.prems(2) by (intro Cons.IH) simp_all
  with fl show ?case by simp
qed

lemma merge_splits_fits:
  assumes "int (length (join separator splits)) \<le> chunk_size"
  shows "merge_splits splits =
           Inr (case join_docs splits separator of None \<Rightarrow> [] | Some doc \<Rightarrow> [doc])"
  using merge_loop_fits [of "\<lparr>docs = [], current_doc = [], total = 0\<rparr>" splits] assms
  by (simp add: merge_splits_def split: option.splits)

lemma merge_splits_single:
  assumes "d \<noteq> []"
  shows "merge_splits [d] = Inr (case join_docs [d] separator of None \<Rightarrow> [] | Some doc \<Rightarrow> [doc])"
  by (simp add: merge_splits_def flush_def split: option.splits)

lemma strip_id:
  assumes "s \<noteq> []" "\<not> isspace (hd s)" "\<not> isspace (last s)"
  shows "strip s = s"
proof -
  from assms(1,2) have "dropWhile isspace s = s"
    by (cases s) auto
  moreover from assms(1,3) have "dropWhile isspace (rev s) = rev s"
    by (cases "rev s") (auto simp: last_rev [symmetric] simp del: last_rev)
  ultimately show ?thesis
    by (simp add: strip_def)
qed

lemma split_on_no_empty_piece:
  "(xs \<noteq> [] \<and> last xs \<noteq> newline \<and> \<not> blank_line xs \<longrightarrow> [] \<notin> set (tl (split_on newline xs))) \<and>
   (xs \<noteq> [] \<and> hd xs \<noteq> newline \<and> last xs \<noteq> newline \<and> \<not> blank_line xs \<longrightarrow> [] \<notin> set (split_on newline xs))"
proof (induction xs)
  case Nil
  show ?case by simp
next
  case (Cons x xs)
  obtain p ps where ps: "split_on newline xs = p # ps"
    using split_on_not_Nil [of newline xs] by (cases "split_on newline xs") auto
  show ?case
  proof (cases xs)
    case Nil
    then show ?thesis by auto
  next
    case (Cons y ys)
    with Cons.IH ps show ?thesis
      by (auto split: if_splits)
  qed
qed

lemma join_docs_single:
  "join_docs [d] sep = (if strip d = [] then None else Some (strip d))"
  by (simp add: join_docs_def)

lemma split_text_no_line_break:
  assumes "text \<noteq> []" "newline \<notin> set text"
  shows "split_text text = Inr (if strip text = [] then [] else [strip text])"
proof -
  from assms have "split_text_with_regex text = [text]"
    by (simp add: split_text_with_regex_def separator_def split_on_absent)
  with assms(1) show ?thesis
    by (simp add: split_text_def merge_splits_single join_docs_single)
qed

lemma split_text_fits:
  assumes "length text \<le> 1000"
  shows "split_text text =
           Inr (let t = strip (join separator (filter (\<lambda>l. l \<noteq> []) (split_on newline text)))
                in if t = [] then [] else [t])"
proof -
  have "length (join separator (filter (\<lambda>l. l \<noteq> []) (split_on newline text)))
          \<le> length (join separator (split_on newline text))"
    by (rule length_join_filter)
  with assms have "int (length (join separator (split_text_with_regex text))) \<le> chunk_size"
    by (simp add: split_text_with_regex_def separator_def chunk_size_def join_split_on)
  then have "split_text text =
      Inr (case join_docs (split_text_with_regex text) separator of None \<Rightarrow> [] | Some doc \<Rightarrow> [doc])"
    unfolding split_text_def by (rule merge_splits_fits)
  then show ?thesis
    by (simp add: join_docs_def split_text_with_regex_def separator_def Let_def)
qed

lemma lines_rejoined:
  assumes "text \<noteq> []" "\<not> isspace (hd text)" "\<not> isspace (last text)" "\<not> blank_line text"
  shows "strip (join separator (filter (\<lambda>l. l \<noteq> []) (split_on newline text))) = text"
proof -
  have nl: "isspace newline"
    by (simp add: isspace_def newline_def)
  with assms have "hd text \<noteq> newline" "last text \<noteq> newline"
    by auto
  with assms(1,4) have "[] \<notin> set (split_on newline text)"
    using split_on_no_empty_piece [of "text"] by simp
  then have "filter (\<lambda>l. l \<noteq> []) (split_on newline text) = split_on newline text"
    by (auto simp: filter_id_conv)
  with assms show ?thesis
    by (simp add: separator_def join_split_on strip_id)
qed

text \<open>
  Claim C5, as amended. A text of more than 1000 characters without a line break is not
  cut: \<open>get_text_chunks\<close> returns it as one chunk, stripped of the whitespace around it
  (so the chunk is longer than 1000 characters unless the stripping shortens it), and
  returns no chunk when the text is whitespace only.
\<close>

theorem get_text_chunks_no_line_break:
  assumes "length text > 1000" and "newline \<notin> set text"
  shows "get_text_chunks text = Inr (if strip text = [] then [] else [strip text])"
proof -
  from assms(1) have "text \<noteq> []"
    by auto
  with assms(2) show ?thesis
    by (simp add: get_text_chunks_def split_text_no_line_break)
qed

theorem get_text_chunks_no_line_break_witness:
  "length (32 # replicate 1001 (97::nat)) > 1000 \<and> newline \<notin> set (32 # replicate 1001 (97::nat)) \<and>
   get_text_chunks (32 # replicate 1001 97) = Inr [replicate 1001 97]"
  using get_text_chunks_no_line_break [of "32 # replicate 1001 97"]
  by (simp add: strip_def isspace_def newline_def)

text \<open>
  Claim C5, as stated, fails: a text of 1001 letters without a line break comes back as
  one chunk of 1001 characters, where a window of 1000 characters with an overlap of 200
  would give two chunks of at most 1000.
\<close>

theorem get_text_chunks_window_counterexample:
  "length (replicate 1001 (97::nat)) > 1000 \<and> newline \<notin> set (replicate 1001 (97::nat)) \<and>
   get_text_chunks (replicate 1001 97) = Inr [replicate 1001 97] \<and>
   \<not> length (replicate 1001 (97::nat)) \<le> 1000 \<and>
   length [replicate 1001 (97::nat)] = 1 \<and> (1001 - 200 + 799) div 800 = (2::nat)"
proof -
  have "split_text (replicate 1001 97) = Inr [replicate 1001 97]"
    using split_text_no_line_break [of "replicate 1001 97"]
    by (simp add: strip_def isspace_def newline_def)
  then show ?thesis
    by (simp add: get_text_chunks_def newline_def)
qed

text \<open>
  Claim C6, as amended. For a non-empty text of fewer than 1000 characters,
  \<open>get_text_chunks\<close> returns at most one chunk: the non-empty lines of the text joined by
  single line breaks, stripped of the whitespace around them, and no chunk when nothing
  is left. The chunk is the text itself when the text neither starts nor ends with
  whitespace and has no two adjacent line breaks.
\<close>

theorem get_text_chunks_short:
  assumes "text \<noteq> []" and "length text < 1000"
  shows "get_text_chunks text =
           Inr (let t = strip (join separator (filter (\<lambda>l. l \<noteq> []) (split_on newline text)))
                in if t = [] then [] else [t]) \<and>
         (\<not> isspace (hd text) \<and> \<not> isspace (last text) \<and> \<not> blank_line text
            \<longrightarrow> get_text_chunks text = Inr [text])"
proof -
  from assms have eq: "get_text_chunks text =
      Inr (let t = strip (join separator (filter (\<lambda>l. l \<noteq> []) (split_on newline text)))
           in if t = [] then [] else [t])"
    by (simp add: get_text_chunks_def split_text_fits)
  moreover have "get_text_chunks text = Inr [text]"
    if "\<not> isspace (hd text)" "\<not> isspace (last text)" "\<not> blank_line text"
    using eq assms(1) lines_rejoined [OF assms(1) that] by simp
  ultimately show ?thesis
    by blast
qed

theorem get_text_chunks_short_witness:
  "ascii ''ab'' @ [newline] @ ascii ''cd'' \<noteq> [] \<and> length (ascii ''ab'' @ [newline] @ ascii ''cd'') < 1000 \<and>
   get_text_chunks (ascii ''ab'' @ [newline] @ ascii ''cd'') = Inr [ascii ''ab'' @ [newline] @ ascii ''cd'']"
  using get_text_chunks_short [of "ascii ''ab'' @ [newline] @ ascii ''cd''"]
  by (simp add: ascii_def isspace_def strip_def newline_def separator_def)

text \<open>
  Claim C6, as stated, fails: trailing whitespace is trimmed, an empty line is dropped,
  and a text of whitespace only gives no chunk.
\<close>

theorem get_text_chunks_identity_counterexample:
  "ascii ''Total '' \<noteq> [] \<and> length (ascii ''Total '') < 1000 \<and>
   get_text_chunks (ascii ''Total '') = Inr [ascii ''Total''] \<and>
   ascii ''Total'' \<noteq> ascii ''Total '' \<and>
   get_text_chunks (ascii ''a'' @ [newline, newline] @ ascii ''b'') = Inr [ascii ''a'' @ [newline] @ ascii ''b''] \<and>
   get_text_chunks (ascii '' '') = Inr []"
  by (simp add: get_text_chunks_def split_text_fits ascii_def strip_def isspace_def newline_def
      separator_def)









section \<open>Properties of the Process action and of the session\<close>




lemma get_vectorstore_nonempty:
  "text_chunks \<noteq> [] \<Longrightarrow> get_vectorstore sv text_chunks \<noteq> Inr None"
  by (simp add: get_vectorstore_def split: sum.splits)



lemma process_state:
  "batch \<noteq> [] \<Longrightarrow>
   snd (process sv batch s) =
     (case pipeline sv batch of
        Built chain \<Rightarrow> (None, s\<lparr>conversation := Some (Some chain)\<rparr>)
      | Failed k \<Rightarrow> (None, s)
      | Aborted k e \<Rightarrow> (Some e, s))"
  by (simp add: process_def pipeline_def truthy_def get_vectorstore_nonempty
      split: prod.splits option.splits sum.splits)



lemma pipeline_corrupted: "pipeline sv [invoice_pdf, corrupted_pdf] = Failed Extraction"
  by (simp add: pipeline_def get_pdf_text_result unreadable_def corrupted_pdf_def invoice_pdf_def)

lemma get_pdf_text_invoice: "get_pdf_text [invoice_pdf] = ([], Some (ascii ''Invoice Total: $42.00''))"
  by (simp add: get_pdf_text_result unreadable_def empty_text_def usable_def document_text_def
      invoice_pdf_def isspace_def ascii_def)

lemma get_text_chunks_invoice:
  "get_text_chunks (ascii ''Invoice Total: $42.00'') = Inr [ascii ''Invoice Total: $42.00'']"
  by (simp add: get_text_chunks_def split_text_fits ascii_def strip_def isspace_def newline_def
      separator_def)



lemma pipeline_demo:
  "pipeline demo_services [invoice_pdf] = Built ([ascii ''Invoice Total: $42.00''], 0)"
  by (simp add: pipeline_def get_pdf_text_invoice get_text_chunks_invoice get_vectorstore_def
      get_conversation_chain_def demo_services_def) (simp add: ascii_def)







text \<open>
  Claim C9. The Process action on an empty upload shows the error message and nothing
  else, enters no stage, and leaves the session state as it was.
\<close>

theorem process_without_upload:
  "process sv [] s = ([Error no_pdf_error], None, s) \<and> calls (fst (process sv [] s)) = []"
  by (simp add: process_def)

lemma process_assigns:
  "snd (snd (process sv batch s)) = s \<or>
   (batch \<noteq> [] \<and>
    (\<exists>chain. pipeline sv batch = Built chain \<and>
       snd (snd (process sv batch s)) = s\<lparr>conversation := Some (Some chain)\<rparr>))"
proof (cases "batch = []")
  case True
  then show ?thesis by (simp add: process_def)
next
  case False
  then show ?thesis
    using process_state [of batch sv s] by (cases "pipeline sv batch") auto
qed

lemma process_built:
  assumes "batch \<noteq> []" and "pipeline sv batch = Built chain"
  shows "snd (snd (process sv batch s)) = s\<lparr>conversation := Some (Some chain)\<rparr>"
  using assms process_state [of batch sv s] by simp

lemma process_keeps_chain:
  "chain_of s \<noteq> None \<Longrightarrow> chain_of (snd (snd (process sv batch s))) \<noteq> None"
  using process_assigns [of sv batch s] by (auto simp: chain_of_def)

lemma handle_userinput_no_chain:
  assumes "chain_of s = None"
  shows "\<exists>shown e s'. handle_userinput sv q s = (shown, Some e, s') \<and> chain_of s' = None"
  using assms by (auto simp: handle_userinput_def chain_of_def Let_def split: option.splits)

lemma handle_userinput_keeps_chain:
  assumes "chain_of s \<noteq> None"
  shows "chain_of (snd (snd (handle_userinput sv q s))) \<noteq> None"
proof -
  from assms obtain chain where "conversation s = Some (Some chain)"
    by (auto simp: chain_of_def split: option.splits)
  then show ?thesis
    by (cases "invoke sv chain [ascii ''question'' \<mapsto> q]")
      (auto simp: handle_userinput_def chain_of_def Let_def split: sum.splits option.splits)
qed

lemma env_check: "(\<exists>k \<in> set langsmith_keys. getenv sv k = None) = (\<not> environment_set sv)"
  by (simp add: environment_set_def list_all_iff)

lemma main_unset:
  "\<not> environment_set sv \<Longrightarrow> main sv inp s = ([], Some TypeError, s)"
  by (simp add: main_def env_check)

lemma main_structure:
  assumes "environment_set sv"
  obtains s2 where "chain_of s2 = chain_of s"
    and "main sv inp s =
      (case (if input_question inp \<noteq> [] then handle_userinput sv (input_question inp) s2
             else ([], None, s2)) of
         (shown, Some e, s3) \<Rightarrow> (shown, Some e, s3)
       | (shown, None, s3) \<Rightarrow>
           if input_process inp
           then (case process sv (input_pdfs inp) s3 of (shown', x, s4) \<Rightarrow> (shown @ shown', x, s4))
           else (shown, None, s3))"
proof -
  define s2 where "s2 = (let s1 = (if conversation s = None then s\<lparr>conversation := Some None\<rparr> else s)
                         in if chat_history s1 = None then s1\<lparr>chat_history := Some []\<rparr> else s1)"
  have "chain_of s2 = chain_of s"
    by (auto simp: s2_def chain_of_def Let_def split: option.splits)
  moreover have "\<not> (\<exists>k \<in> set langsmith_keys. getenv sv k = None)"
    using assms by (simp add: env_check)
  then have "main sv inp s =
      (case (if input_question inp \<noteq> [] then handle_userinput sv (input_question inp) s2
             else ([], None, s2)) of
         (shown, Some e, s3) \<Rightarrow> (shown, Some e, s3)
       | (shown, None, s3) \<Rightarrow>
           if input_process inp
           then (case process sv (input_pdfs inp) s3 of (shown', x, s4) \<Rightarrow> (shown @ shown', x, s4))
           else (shown, None, s3))"
    by (simp only: main_def s2_def Let_def if_False)
  ultimately show ?thesis
    by (rule that)
qed

lemma main_without_chain:
  assumes "chain_of s = None"
  shows "(chain_of (snd (snd (main sv inp s))) = None) = (\<not> assigning_run sv inp)"
proof (cases "environment_set sv")
  case False
  with assms show ?thesis
    by (simp add: main_unset assigning_run_def)
next
  case True
  then obtain s2 where eq: "chain_of s2 = chain_of s"
    and m: "main sv inp s =
      (case (if input_question inp \<noteq> [] then handle_userinput sv (input_question inp) s2
             else ([], None, s2)) of
         (shown, Some e, s3) \<Rightarrow> (shown, Some e, s3)
       | (shown, None, s3) \<Rightarrow>
           if input_process inp
           then (case process sv (input_pdfs inp) s3 of (shown', x, s4) \<Rightarrow> (shown @ shown', x, s4))
           else (shown, None, s3))"
    by (rule main_structure)
  from eq assms have s2: "chain_of s2 = None"
    by simp
  show ?thesis
  proof (cases "input_question inp = []")
    case False
    obtain shown e s' where "handle_userinput sv (input_question inp) s2 = (shown, Some e, s')"
      and "chain_of s' = None"
      using handle_userinput_no_chain [OF s2, of sv "input_question inp"] by blast
    with False show ?thesis
      by (simp add: m assigning_run_def)
  next
    case quiet: True
    show ?thesis
    proof (cases "input_process inp \<and> input_pdfs inp \<noteq> []")
      case False
      with quiet s2 show ?thesis
        by (auto simp: m assigning_run_def successful_process_def process_def)
    next
      case True
      then have "snd (snd (process sv (input_pdfs inp) s2)) =
          (case pipeline sv (input_pdfs inp) of
             Built chain \<Rightarrow> s2\<lparr>conversation := Some (Some chain)\<rparr>
           | Failed k \<Rightarrow> s2
           | Aborted k e \<Rightarrow> s2)"
        using process_state [of "input_pdfs inp" sv s2]
        by (simp split: outcome.splits)
      with True quiet s2 \<open>environment_set sv\<close> show ?thesis
        by (auto simp: m assigning_run_def successful_process_def chain_of_def split_beta
            split: outcome.splits)
    qed
  qed
qed

lemma main_with_chain:
  assumes "chain_of s \<noteq> None"
  shows "chain_of (snd (snd (main sv inp s))) \<noteq> None"
proof (cases "environment_set sv")
  case False
  with assms show ?thesis
    by (simp add: main_unset)
next
  case True
  then obtain s2 where eq: "chain_of s2 = chain_of s"
    and m: "main sv inp s =
      (case (if input_question inp \<noteq> [] then handle_userinput sv (input_question inp) s2
             else ([], None, s2)) of
         (shown, Some e, s3) \<Rightarrow> (shown, Some e, s3)
       | (shown, None, s3) \<Rightarrow>
           if input_process inp
           then (case process sv (input_pdfs inp) s3 of (shown', x, s4) \<Rightarrow> (shown @ shown', x, s4))
           else (shown, None, s3))"
    by (rule main_structure)
  from eq assms have s2: "chain_of s2 \<noteq> None"
    by simp
  define r where "r = (if input_question inp \<noteq> [] then handle_userinput sv (input_question inp) s2
                       else ([], None, s2))"
  obtain shown x s3 where r_eq: "r = (shown, x, s3)"
    by (cases r)
  have "chain_of (snd (snd r)) \<noteq> None"
  proof (cases "input_question inp = []")
    case True
    with s2 show ?thesis
      by (simp add: r_def del: not_None_eq)
  next
    case False
    from s2 have "chain_of (snd (snd (handle_userinput sv (input_question inp) s2))) \<noteq> None"
      by (rule handle_userinput_keeps_chain)
    with False show ?thesis
      by (simp add: r_def del: not_None_eq)
  qed
  with r_eq have s3: "chain_of s3 \<noteq> None"
    by simp
  then have "chain_of (snd (snd (process sv (input_pdfs inp) s3))) \<noteq> None"
    by (rule process_keeps_chain)
  with s3 r_eq show ?thesis
    unfolding m r_def [symmetric] by (cases x) (auto simp: split_beta)
qed

lemma session_with_chain:
  "chain_of s \<noteq> None \<Longrightarrow> chain_of (session sv inputs s) \<noteq> None"
proof (induction inputs arbitrary: s)
  case Nil
  then show ?case by simp
next
  case (Cons inp inputs)
  from Cons.prems have "chain_of (snd (snd (main sv inp s))) \<noteq> None"
    by (rule main_with_chain)
  then have "chain_of (session sv inputs (snd (snd (main sv inp s)))) \<noteq> None"
    by (rule Cons.IH)
  then show ?case
    by (simp del: not_None_eq)
qed

lemma session_without_chain:
  "chain_of s = None \<Longrightarrow>
   (chain_of (session sv inputs s) = None) = (\<forall>inp \<in> set inputs. \<not> assigning_run sv inp)"
proof (induction inputs arbitrary: s)
  case Nil
  then show ?case by simp
next
  case (Cons inp inputs)
  show ?case
  proof (cases "assigning_run sv inp")
    case True
    with Cons.prems have "chain_of (snd (snd (main sv inp s))) \<noteq> None"
      by (simp add: main_without_chain)
    then have "chain_of (session sv inputs (snd (snd (main sv inp s)))) \<noteq> None"
      by (rule session_with_chain)
    with True show ?thesis
      by simp
  next
    case False
    with Cons.prems have "chain_of (snd (snd (main sv inp s))) = None"
      by (simp add: main_without_chain)
    then have "(chain_of (session sv inputs (snd (snd (main sv inp s)))) = None)
        = (\<forall>inp \<in> set inputs. \<not> assigning_run sv inp)"
      by (rule Cons.IH)
    with False show ?thesis
      by simp
  qed
qed

text \<open>
  Claim C8. In every session, from startup on, the session holds no chain exactly as
  long as no run has reached the Process branch and completed its four stages: a run in
  which an environment variable is missing, or a question is asked while there is no
  chain, ends before the Process branch and assigns nothing. A run of the Process action
  either leaves the session state as it was or, the four stages having succeeded,
  assigns the chain they built.
\<close>

theorem chain_null_until_success:
  "((chain_of (session sv inputs startup) = None)
      = (\<forall>inp \<in> set inputs. \<not> assigning_run sv inp)) \<and>
   (snd (snd (process sv batch s)) = s \<or>
    (batch \<noteq> [] \<and>
     (\<exists>chain. pipeline sv batch = Built chain \<and>
        snd (snd (process sv batch s)) = s\<lparr>conversation := Some (Some chain)\<rparr>)))"
proof -
  have "(chain_of (session sv inputs startup) = None)
      = (\<forall>inp \<in> set inputs. \<not> assigning_run sv inp)"
    by (rule session_without_chain) (simp add: chain_of_def startup_def)
  then show ?thesis
    using process_assigns [of sv batch s] by blast
qed

lemma demo_environment: "environment_set demo_services"
  by (simp add: environment_set_def demo_services_def langsmith_keys_def)

lemma successful_upload_invoice: "successful_process demo_services upload_invoice"
  by (simp add: successful_process_def upload_invoice_def pipeline_demo)

theorem chain_null_until_success_witness:
  "\<not> assigning_run demo_services ask_hi \<and>
   \<not> assigning_run demo_services upload_corrupted \<and>
   \<not> assigning_run demo_services upload_nothing \<and>
   successful_process demo_services ask_and_upload \<and>
   \<not> assigning_run demo_services ask_and_upload \<and>
   successful_process unset_services upload_invoice \<and>
   \<not> assigning_run unset_services upload_invoice \<and>
   chain_of (session demo_services [ask_hi, upload_corrupted, upload_nothing, ask_and_upload]
     startup) = None \<and>
   chain_of (session unset_services [upload_invoice] startup) = None \<and>
   assigning_run demo_services upload_invoice \<and>
   chain_of (session demo_services [ask_hi, upload_corrupted, upload_invoice, ask_hi] startup)
     \<noteq> None"
proof -
  have no: "\<not> assigning_run demo_services ask_hi"
    "\<not> assigning_run demo_services upload_corrupted"
    "\<not> assigning_run demo_services upload_nothing"
    "\<not> assigning_run demo_services ask_and_upload"
    by (simp_all add: assigning_run_def successful_process_def ask_hi_def upload_corrupted_def
        upload_nothing_def ask_and_upload_def pipeline_corrupted ascii_def)
  have unset: "\<not> assigning_run unset_services upload_invoice"
    by (simp add: assigning_run_def environment_set_def unset_services_def langsmith_keys_def)
  have yes: "assigning_run demo_services upload_invoice"
    by (simp add: assigning_run_def demo_environment successful_upload_invoice)
      (simp add: upload_invoice_def)
  have s1: "successful_process demo_services ask_and_upload"
    by (simp add: successful_process_def ask_and_upload_def pipeline_demo)
  have "pipeline unset_services [invoice_pdf] = Built ([ascii ''Invoice Total: $42.00''], 0)"
    by (simp add: pipeline_def get_pdf_text_invoice get_text_chunks_invoice get_vectorstore_def
        get_conversation_chain_def unset_services_def demo_services_def) (simp add: ascii_def)
  then have s2: "successful_process unset_services upload_invoice"
    by (simp add: successful_process_def upload_invoice_def)
  from no unset yes s1 s2 show ?thesis
    using chain_null_until_success
        [of demo_services "[ask_hi, upload_corrupted, upload_nothing, ask_and_upload]"]
      chain_null_until_success [of unset_services "[upload_invoice]"]
      chain_null_until_success
        [of demo_services "[ask_hi, upload_corrupted, upload_invoice, ask_hi]"]
    by simp
qed

text \<open>
  Claim C10. \<open>handle_userinput\<close> appends the question to the history and shows the
  history, the question included, before it calls the chain. When the call returns an
  answer, the reply is appended after the question; when the call raises, or there is no
  chain to call, the history keeps the question and the exception leaves the function.
\<close>

theorem handle_userinput_history:
  "(conversation s = Some (Some chain) \<and>
    invoke sv chain [ascii ''question'' \<mapsto> q] = (Inr response, chain') \<and>
    response (ascii ''answer'') = Some reply \<longrightarrow>
      handle_userinput sv q s =
        (map (\<lambda>(role, msg). Write (render sv role msg)) (history s @ [(User, q)])
           @ [Typing, Chain_call q, Typing_cleared, Write (render sv Bot reply)],
         None,
         s\<lparr>conversation := Some (Some chain'),
           chat_history := Some (history s @ [(User, q), (Bot, reply)])\<rparr>)) \<and>
   (conversation s = Some (Some chain) \<and>
    invoke sv chain [ascii ''question'' \<mapsto> q] = (Inl e, chain') \<longrightarrow>
      handle_userinput sv q s =
        (map (\<lambda>(role, msg). Write (render sv role msg)) (history s @ [(User, q)])
           @ [Typing, Chain_call q],
         Some e,
         s\<lparr>conversation := Some (Some chain'),
           chat_history := Some (history s @ [(User, q)])\<rparr>)) \<and>
   (conversation s = Some None \<longrightarrow>
      handle_userinput sv q s =
        (map (\<lambda>(role, msg). Write (render sv role msg)) (history s @ [(User, q)]) @ [Typing],
         Some TypeError,
         s\<lparr>chat_history := Some (history s @ [(User, q)])\<rparr>))"
  by (simp add: handle_userinput_def history_def Let_def)

theorem handle_userinput_history_witness:
  "handle_userinput demo_services (ascii ''total?'') chatting =
     ([Write (ascii ''hi''), Write (ascii ''total?''), Typing, Chain_call (ascii ''total?''),
       Typing_cleared, Write (ascii ''$42.00'')],
      None,
      \<lparr>conversation = Some (Some ([ascii ''Invoice Total: $42.00''], 1)),
       chat_history = Some [(User, ascii ''hi''), (User, ascii ''total?''), (Bot, ascii ''$42.00'')]\<rparr>) \<and>
   handle_userinput demo_services (ascii ''boom'') chatting =
     ([Write (ascii ''hi''), Write (ascii ''boom''), Typing, Chain_call (ascii ''boom'')],
      Some (Raised (ascii ''rate limit'')),
      \<lparr>conversation = Some (Some ([ascii ''Invoice Total: $42.00''], 0)),
       chat_history = Some [(User, ascii ''hi''), (User, ascii ''boom'')]\<rparr>) \<and>
   handle_userinput demo_services (ascii ''hi'') idle =
     ([Write (ascii ''hi''), Typing], Some TypeError,
      \<lparr>conversation = Some None, chat_history = Some [(User, ascii ''hi'')]\<rparr>)"
proof -
  have answer: "invoke demo_services ([ascii ''Invoice Total: $42.00''], 0)
        [ascii ''question'' \<mapsto> ascii ''total?'']
      = (Inr [ascii ''answer'' \<mapsto> ascii ''$42.00''], ([ascii ''Invoice Total: $42.00''], 1))"
    by (simp add: demo_services_def ascii_def)
  have raise: "invoke demo_services ([ascii ''Invoice Total: $42.00''], 0)
        [ascii ''question'' \<mapsto> ascii ''boom'']
      = (Inl (Raised (ascii ''rate limit'')), ([ascii ''Invoice Total: $42.00''], 0))"
    by (simp add: demo_services_def)
  have render: "render demo_services = (\<lambda>role msg. msg)"
    by (simp add: demo_services_def)
  show ?thesis
    using handle_userinput_history [where s = chatting and sv = demo_services
        and q = "ascii ''total?''" and chain = "([ascii ''Invoice Total: $42.00''], 0)"
        and response = "[ascii ''answer'' \<mapsto> ascii ''$42.00'']"
        and chain' = "([ascii ''Invoice Total: $42.00''], 1)" and reply = "ascii ''$42.00''"]
      handle_userinput_history [where s = chatting and sv = demo_services
        and q = "ascii ''boom''" and chain = "([ascii ''Invoice Total: $42.00''], 0)"
        and e = "Raised (ascii ''rate limit'')"
        and chain' = "([ascii ''Invoice Total: $42.00''], 0)"]
      handle_userinput_history [where s = idle and sv = demo_services and q = "ascii ''hi''"]
    by (simp add: answer raise render) (simp add: chatting_def idle_def history_def)
qed

text \<open>
  Claim C4. The chain that \<open>get_conversation_chain\<close> returns is the one that
  \<open>from_llm\<close> builds from the chat model, the retriever and the memory: the prompt with
  the system instruction is not among the arguments.
\<close>

theorem get_conversation_chain_arguments:
  "get_conversation_chain sv (Some vs) =
     (if \<not> vs_truthy sv vs then ([Error missing_vectorstore_error], Inr None)
      else case chat_groq sv (ascii ''llama3-8b-8192'') of
             Inl e \<Rightarrow> ([], Inl e)
           | Inr llm \<Rightarrow>
               (case from_llm sv llm (Retriever vs) (ConversationBufferMemory (ascii ''chat_history'') True) of
                  Inl e \<Rightarrow> ([], Inl e)
                | Inr conversation_chain \<Rightarrow> ([], Inr (Some conversation_chain))))"
  by (simp add: get_conversation_chain_def Let_def split: sum.splits)

end
